theory Spec2Isabelle
  imports Complex_Main "HOL-Library.Multiset"
begin

section \<open>The generic object pool (ObjectPool)\<close>

text \<open>
  Modelled from the spec: the three hook operations of the abstract class
  \<open>ObjectPool<T>\<close>, which \<open>TransportPool\<close> extends and whose file
  (\<open>scripts/utilities/ObjectPool.ts\<close>) is not part of the sources at hand.
  Instances of \<open>T\<close> are JavaScript objects, so \<open>'a\<close> is the type of object
  references and \<open>'w\<close> the world the hooks mutate (the objects themselves and
  whatever shared context they are wired into). The construction hook takes no
  argument and returns the new instance.
\<close>

record ('a, 'w) hooks =
  create :: "'w \<Rightarrow> 'a \<times> 'w"
  onAllocate :: "'a \<Rightarrow> 'w \<Rightarrow> 'w"
  onRelease :: "'a \<Rightarrow> 'w \<Rightarrow> 'w"

text \<open>
  Modelled from the spec: the pool holds the active set and the idle set. Both
  are kept as lists, whose elements are the set and whose length is the size.
  \<open>created\<close> is a ghost field: the log of the instances the construction hook
  has returned, newest first, so its length is the number of invocations of the
  hook. \<open>world\<close> is the state the hooks act on; the pool operations touch it
  only through the hooks.
\<close>

record ('a, 'w) pool =
  active :: "'a list"
  idle :: "'a list"
  created :: "'a list"
  world :: 'w

text \<open>Modelled from the spec: a pool is constructed with 0 pre-existing instances.\<close>

definition ObjectPool_new :: "'w \<Rightarrow> ('a, 'w) pool" where
  "ObjectPool_new w = \<lparr>active = [], idle = [], created = [], world = w\<rparr>"

text \<open>
  Modelled from the spec: \<open>allocate()\<close>. If the idle set is non-empty, one
  instance is removed from it and returned; which one is unspecified, so the
  choice is an argument \<open>k\<close> of the model (the instance at position
  \<open>k mod size\<close>), and a statement for every \<open>k\<close> covers every selection order.
  Otherwise a new instance is constructed via the construction hook. In both
  cases the instance is added to the active set and the on-allocate hook is
  invoked on it before it is returned.
\<close>

definition allocate :: "('a, 'w) hooks \<Rightarrow> nat \<Rightarrow> ('a, 'w) pool \<Rightarrow> 'a \<times> ('a, 'w) pool" where
  "allocate h k s =
     (if idle s \<noteq> [] then
        (let obj = idle s ! (k mod length (idle s)) in
         (obj, s\<lparr>idle := remove1 obj (idle s),
                 active := obj # active s,
                 world := onAllocate h obj (world s)\<rparr>))
      else
        (let (obj, w) = create h (world s) in
         (obj, s\<lparr>active := obj # active s,
                 created := obj # created s,
                 world := onAllocate h obj w\<rparr>)))"

text \<open>
  Modelled from the spec: the two ways a \<open>release\<close> ends, normally or on
  the fault path of its assertion.
\<close>

datatype outcome = Released | AssertionFault

text \<open>
  Modelled from the spec: \<open>release(instance)\<close>. The precondition is that the
  instance is in the active set; violating it takes the fault path (the
  assertion) and mutates nothing. Otherwise the instance is removed from the
  active set, the on-release hook is invoked, and the instance is inserted into
  the idle set. The result pairs the outcome with the pool state afterwards.
\<close>

definition release :: "('a, 'w) hooks \<Rightarrow> 'a \<Rightarrow> ('a, 'w) pool \<Rightarrow> outcome \<times> ('a, 'w) pool" where
  "release h obj s =
     (if obj \<in> set (active s) then
        (Released, s\<lparr>active := remove1 obj (active s),
                      world := onRelease h obj (world s),
                      idle := obj # idle s\<rparr>)
      else (AssertionFault, s))"

text \<open>The states a pool can be in: a new pool, then any sequence of operations.\<close>

inductive reachable :: "('a, 'w) hooks \<Rightarrow> ('a, 'w) pool \<Rightarrow> bool" for h where
  reachable_new: "reachable h (ObjectPool_new w)"
| reachable_allocate: "reachable h s \<Longrightarrow> reachable h (snd (allocate h k s))"
| reachable_release: "reachable h s \<Longrightarrow> reachable h (snd (release h obj s))"

text \<open>
  Modelled from the spec: the construction hook returns a new instance. With
  \<open>live w\<close> the set of objects that exist in the world \<open>w\<close>, the instance
  returned is not among them and exists afterwards, and no hook makes an object
  cease to exist.
\<close>

definition constructs_new :: "('w \<Rightarrow> 'a set) \<Rightarrow> ('a, 'w) hooks \<Rightarrow> bool" where
  "constructs_new live h \<longleftrightarrow>
     (\<forall>w. fst (create h w) \<notin> live w \<and> insert (fst (create h w)) (live w) \<subseteq> live (snd (create h w))) \<and>
     (\<forall>obj w. live w \<subseteq> live (onAllocate h obj w)) \<and>
     (\<forall>obj w. live w \<subseteq> live (onRelease h obj w))"

text \<open>The invariant of the bookkeeping.\<close>

definition pool_inv :: "('w \<Rightarrow> 'a set) \<Rightarrow> ('a, 'w) pool \<Rightarrow> bool" where
  "pool_inv live s \<longleftrightarrow>
     distinct (active s) \<and> distinct (idle s) \<and> distinct (created s) \<and>
     set (active s) \<inter> set (idle s) = {} \<and>
     set (active s) \<union> set (idle s) = set (created s) \<and>
     set (created s) \<subseteq> live (world s)"

text \<open>N allocations in a row, with the list of selections, and the instances returned.\<close>

fun allocate_many :: "('a, 'w) hooks \<Rightarrow> nat list \<Rightarrow> ('a, 'w) pool \<Rightarrow> 'a list \<times> ('a, 'w) pool" where
  "allocate_many h [] s = ([], s)"
| "allocate_many h (k # ks) s =
     (let (obj, s1) = allocate h k s;
          (objs, s2) = allocate_many h ks s1
      in (obj # objs, s2))"

text \<open>Releases in a row; the result says whether any of them took the fault path.\<close>

fun release_many :: "('a, 'w) hooks \<Rightarrow> 'a list \<Rightarrow> ('a, 'w) pool \<Rightarrow> bool \<times> ('a, 'w) pool" where
  "release_many h [] s = (False, s)"
| "release_many h (obj # objs) s =
     (let (r, s1) = release h obj s;
          (faulted, s2) = release_many h objs s1
      in (r = AssertionFault \<or> faulted, s2))"

section \<open>The pixi.js display objects that TransportPool uses\<close>

text \<open>
  Objects are addressed by reference: a sprite reference is an index into the
  store of all \<open>Sprite\<close> objects of the world, a container reference names
  a \<open>Container\<close>. JavaScript has no dangling reference; in the model an index
  beyond the store names no object, and writing through it changes nothing.
\<close>

type_synonym ref = nat
type_synonym cref = nat

text \<open>
  The TypeScript parameter type \<open>Texture\<close> is not checked at run time, so the
  value bound to it is any JavaScript value; that is what
  \<open>texture instanceof Texture\<close> inspects.
\<close>

datatype jsval = Undefined | Null | TextureObj nat | OtherObj nat

fun instanceof_Texture :: "jsval \<Rightarrow> bool" where
  "instanceof_Texture (TextureObj n) = True"
| "instanceof_Texture v = False"

fun truthy :: "jsval \<Rightarrow> bool" where
  "truthy Undefined = False"
| "truthy Null = False"
| "truthy v = True"

definition Texture_EMPTY :: jsval where
  "Texture_EMPTY = TextureObj 0"

record point =
  px :: real
  py :: real

record sprite =
  texture :: jsval
  scale :: point
  anchor :: point
  alpha :: real
  visible :: bool
  parent :: "cref option"
  destroyed :: bool

record pixi_world =
  sprites :: "sprite list"
  children :: "cref \<Rightarrow> ref list"
  console :: "string list"

definition live_sprites :: "pixi_world \<Rightarrow> ref set" where
  "live_sprites w = {r. r < length (sprites w)}"

definition update_sprite :: "ref \<Rightarrow> (sprite \<Rightarrow> sprite) \<Rightarrow> pixi_world \<Rightarrow> pixi_world" where
  "update_sprite r f w = w\<lparr>sprites := (sprites w)[r := f (sprites w ! r)]\<rparr>"

text \<open>The exception that reading a property of \<open>undefined\<close> raises.\<close>

datatype js_error = TypeError

text \<open>
  \<open>new Sprite(texture)\<close> of pixi.js. For a truthy argument the constructor
  first reads \<open>texture.defaultAnchor.x\<close>; a value that is not a
  \<open>Texture\<close> has no \<open>defaultAnchor\<close>, so the read raises a
  \<open>TypeError\<close> and no sprite comes into being. Otherwise the result is a new
  object, with the library's defaults (\<open>texture || Texture.EMPTY\<close>, scale 1,
  anchor 0, alpha 1, visible, no parent). The result pairs the exception or
  the reference with the world afterwards.
\<close>

definition Sprite_new :: "jsval \<Rightarrow> pixi_world \<Rightarrow> (js_error + ref) \<times> pixi_world" where
  "Sprite_new t w =
     (if truthy t \<and> \<not> instanceof_Texture t then (Inl TypeError, w)
      else
        (Inr (length (sprites w)),
         w\<lparr>sprites := sprites w @
             [\<lparr>texture = (if truthy t then t else Texture_EMPTY),
               scale = \<lparr>px = 1, py = 1\<rparr>,
               anchor = \<lparr>px = 0, py = 0\<rparr>,
               alpha = 1,
               visible = True,
               parent = None,
               destroyed = False\<rparr>]\<rparr>))"

text \<open>
  \<open>container.addChild(child)\<close> of pixi.js: the child leaves its previous
  parent, if it has one, gets the container as parent, is pushed onto the
  container's children, and is returned.
\<close>

definition addChild :: "cref \<Rightarrow> ref \<Rightarrow> pixi_world \<Rightarrow> ref \<times> pixi_world" where
  "addChild c r w =
     (if r < length (sprites w) then
        (let w1 = (case parent (sprites w ! r) of
                     None \<Rightarrow> w
                   | Some p \<Rightarrow> w\<lparr>children := (children w)(p := remove1 r (children w p))\<rparr>);
             w2 = update_sprite r (\<lambda>s. s\<lparr>parent := Some c\<rparr>) w1
         in (r, w2\<lparr>children := (children w2)(c := children w2 c @ [r])\<rparr>))
      else (r, w))"

text \<open>\<open>console.assert(condition, message)\<close>: logs the message when the condition is false, and returns.\<close>

definition console_assert :: "bool \<Rightarrow> string \<Rightarrow> pixi_world \<Rightarrow> pixi_world" where
  "console_assert cond msg w = (if cond then w else w\<lparr>console := console w @ [msg]\<rparr>)"

section \<open>TransportPool\<close>

text \<open>The fields \<open>_texture\<close> and \<open>_parent\<close> of a \<open>TransportPool\<close> object.\<close>

record transport_pool =
  tp_texture :: jsval
  tp_parent :: cref

definition DefaultAlpha :: real where
  "DefaultAlpha = 0.5"

text \<open>
  The constructor: \<open>super()\<close>, the assertion on the texture, the two fields.
  The result is the object's fields and its (new, empty) bookkeeping.
\<close>

definition TransportPool_constructor ::
  "jsval \<Rightarrow> cref \<Rightarrow> pixi_world \<Rightarrow> transport_pool \<times> (ref, pixi_world) pool" where
  "TransportPool_constructor texture' parent' w =
     (let s = ObjectPool_new w;
          s1 = s\<lparr>world := console_assert (instanceof_Texture texture') ''Texture is not valid'' (world s)\<rparr>
      in (\<lparr>tp_texture = texture', tp_parent = parent'\<rparr>, s1))"

text \<open>
  \<open>create()\<close>. An exception of \<open>new Sprite\<close> leaves the method at once:
  nothing is added to the parent and nothing is returned.
\<close>

definition TransportPool_create :: "transport_pool \<Rightarrow> pixi_world \<Rightarrow> (js_error + ref) \<times> pixi_world" where
  "TransportPool_create this w =
     (case Sprite_new (tp_texture this) w of
        (Inl e, w1) \<Rightarrow> (Inl e, w1)
      | (Inr obj, w1) \<Rightarrow>
          (let (visual, w2) = addChild (tp_parent this) obj w1;
               w3 = update_sprite visual (\<lambda>s. s\<lparr>scale := \<lparr>px = 0.15, py = 0.15\<rparr>\<rparr>) w2;
               w4 = update_sprite visual (\<lambda>s. s\<lparr>anchor := (anchor s)\<lparr>px := 1\<rparr>\<rparr>) w3;
               w5 = update_sprite visual (\<lambda>s. s\<lparr>anchor := (anchor s)\<lparr>py := 0.5\<rparr>\<rparr>) w4
           in (Inr visual, w5)))"

definition TransportPool_onAllocate :: "ref \<Rightarrow> pixi_world \<Rightarrow> pixi_world" where
  "TransportPool_onAllocate obj w = update_sprite obj (\<lambda>s. s\<lparr>alpha := DefaultAlpha\<rparr>) w"

definition TransportPool_onRelease :: "ref \<Rightarrow> pixi_world \<Rightarrow> pixi_world" where
  "TransportPool_onRelease obj w = update_sprite obj (\<lambda>s. s\<lparr>alpha := 0\<rparr>) w"

text \<open>
  The three overrides, as the hooks of the generic pool. The construction hook
  of the generic pool returns an instance, so the record stands for a pool whose
  \<open>create()\<close> returns: one whose texture is a \<open>Texture\<close>, \<open>undefined\<close>
  or \<open>null\<close>. Where \<open>create()\<close> raises, the exception leaves
  \<open>allocate()\<close> as well, and the record says nothing about the instance.
\<close>

definition TransportPool_hooks :: "transport_pool \<Rightarrow> (ref, pixi_world) hooks" where
  "TransportPool_hooks this =
     \<lparr>create = (\<lambda>w. (projr (fst (TransportPool_create this w)), snd (TransportPool_create this w))),
      onAllocate = TransportPool_onAllocate,
      onRelease = TransportPool_onRelease\<rparr>"

section \<open>React hooks (Hook.ts)\<close>

text \<open>
  The function passed to React's \<open>useEffect\<close>: run on the state it acts on,
  it gives the state afterwards and the cleanup function it returns, which React
  runs later on the state of that time.
\<close>

type_synonym 's effect = "'s \<Rightarrow> 's \<times> ('s \<Rightarrow> 's)"

subsection \<open>useShortcut\<close>

text \<open>
  The registry that \<open>getShortcuts()\<close> returns is a JavaScript object: a key
  is absent (\<open>None\<close>), or present with the value \<open>undefined\<close>
  (\<open>Some None\<close>) or with a callback. The elements of the dependency array
  \<open>[shortcut, callback, ...deps]\<close> are of three kinds.
\<close>

type_synonym ('k, 'cb) shortcuts = "'k \<Rightarrow> 'cb option option"

datatype ('k, 'cb, 'd) dependency = DepShortcut 'k | DepCallback 'cb | Dep 'd

text \<open>\<open>useShortcut\<close> hands React this effect and this dependency array.\<close>

definition useShortcut ::
  "'k \<Rightarrow> 'cb \<Rightarrow> 'd list \<Rightarrow> (('k, 'cb) shortcuts) effect \<times> ('k, 'cb, 'd) dependency list" where
  "useShortcut shortcut callback deps =
     ((\<lambda>shortcuts.
         (shortcuts(shortcut := Some (Some callback)),
          (\<lambda>shortcuts'. shortcuts'(shortcut := Some None)))),
      DepShortcut shortcut # DepCallback callback # map Dep deps)"

subsection \<open>TypedEvent\<close>

text \<open>A listener is a function object, compared by reference.\<close>

type_synonym fn_ref = nat

text \<open>
  Modelled from the spec: \<open>on\<close> of the typed event
  (\<open>shared/utilities/TypedEvent\<close>, not part of the sources at hand). The
  event maintains a set of subscriber callbacks, kept in registration order, and
  subscribing is idempotent.
\<close>

definition TypedEvent_on :: "fn_ref \<Rightarrow> fn_ref list \<Rightarrow> fn_ref list" where
  "TypedEvent_on listener ls = (if listener \<in> set ls then ls else ls @ [listener])"

text \<open>
  Modelled from the spec: \<open>off\<close> of the typed event. Unsubscribing removes
  the listener from the set and is idempotent.
\<close>

definition TypedEvent_off :: "fn_ref \<Rightarrow> fn_ref list \<Rightarrow> fn_ref list" where
  "TypedEvent_off listener ls = removeAll listener ls"

subsection \<open>makeObservableHook\<close>

text \<open>
  The world of one component that calls \<open>observe\<close>: the cell of
  \<open>useState(0)\<close>, the function objects created so far (a reference is an
  index; a function is what a call with a payload does to the cell, which is all
  that \<open>setter\<close> reaches), the listeners of the event, and the state that
  the getter reads.
\<close>

record ('t, 'g) react_world =
  counter :: nat
  closures :: "('t \<Rightarrow> nat \<Rightarrow> nat) list"
  listeners :: "fn_ref list"
  globals :: 'g

text \<open>\<open>handleEvent(data)\<close> calls \<open>setter((old) => old + 1)\<close>.\<close>

definition handleEvent :: "'t \<Rightarrow> nat \<Rightarrow> nat" where
  "handleEvent data c = (\<lambda>old. old + 1) c"

text \<open>
  One call of \<open>observe()\<close>, that is one render: \<open>function handleEvent\<close> is a
  new function object, the effect handed to \<open>useEffect\<close> registers it and
  returns the cleanup that deregisters it, and the result is \<open>getter()\<close>.
\<close>

definition observe ::
  "('g \<Rightarrow> 't) \<Rightarrow> ('t, 'g) react_world \<Rightarrow> 't \<times> (fn_ref list) effect \<times> ('t, 'g) react_world" where
  "observe getter w =
     (let h = length (closures w);
          w1 = w\<lparr>closures := closures w @ [handleEvent]\<rparr>
      in (getter (globals w1),
          (\<lambda>ls. (TypedEvent_on h ls, (\<lambda>ls'. TypedEvent_off h ls'))),
          w1))"

definition makeObservableHook ::
  "('g \<Rightarrow> 't) \<Rightarrow> ('t, 'g) react_world \<Rightarrow> 't \<times> (fn_ref list) effect \<times> ('t, 'g) react_world" where
  "makeObservableHook getter = observe getter"

text \<open>
  React's part: mounting makes the first render, where \<open>useState(0)\<close> sets
  the cell to 0, and then runs the effect, keeping its cleanup; unmounting runs
  the cleanup.
\<close>

definition mount ::
  "('g \<Rightarrow> 't) \<Rightarrow> ('t, 'g) react_world \<Rightarrow> 't \<times> (fn_ref list \<Rightarrow> fn_ref list) \<times> ('t, 'g) react_world" where
  "mount getter w =
     (let (v, eff, w1) = makeObservableHook getter (w\<lparr>counter := 0\<rparr>);
          (ls, cleanup) = eff (listeners w1)
      in (v, cleanup, w1\<lparr>listeners := ls\<rparr>))"

definition unmount :: "(fn_ref list \<Rightarrow> fn_ref list) \<Rightarrow> ('t, 'g) react_world \<Rightarrow> ('t, 'g) react_world" where
  "unmount cleanup w = w\<lparr>listeners := cleanup (listeners w)\<rparr>"

text \<open>
  Modelled from the spec: the calls an emission makes, to all current
  subscribers in registration order, each with the payload.
\<close>

definition call_listeners :: "('t \<Rightarrow> nat \<Rightarrow> nat) list \<Rightarrow> 't \<Rightarrow> nat \<Rightarrow> fn_ref list \<Rightarrow> nat" where
  "call_listeners fs data c ls =
     foldl (\<lambda>c l. if l < length fs then (fs ! l) data c else c) c ls"

text \<open>
  Modelled from the spec: \<open>emit\<close> of the typed event invokes all current
  subscribers synchronously.
\<close>

definition emit :: "'t \<Rightarrow> ('t, 'g) react_world \<Rightarrow> ('t, 'g) react_world" where
  "emit data w = w\<lparr>counter := call_listeners (closures w) data (counter w) (listeners w)\<rparr>"

section \<open>A concrete scene\<close>

text \<open>
  An empty world, a transport pool on a valid texture and on container 0, and
  the pool states of the scenario of allocating twice and releasing both.
\<close>

definition demo_world :: pixi_world where
  "demo_world = \<lparr>sprites = [], children = (\<lambda>c. []), console = []\<rparr>"

definition demo_this :: transport_pool where
  "demo_this = fst (TransportPool_constructor (TextureObj 7) 0 demo_world)"

definition demo_hooks :: "(ref, pixi_world) hooks" where
  "demo_hooks = TransportPool_hooks demo_this"

definition demo_new :: "(ref, pixi_world) pool" where
  "demo_new = snd (TransportPool_constructor (TextureObj 7) 0 demo_world)"

definition demo_one_active :: "(ref, pixi_world) pool" where
  "demo_one_active = snd (allocate demo_hooks 0 demo_new)"

definition demo_one_idle :: "(ref, pixi_world) pool" where
  "demo_one_idle = snd (release demo_hooks 0 demo_one_active)"

definition demo_two_active :: "(ref, pixi_world) pool" where
  "demo_two_active = snd (allocate demo_hooks 0 demo_one_active)"

definition demo_two_idle :: "(ref, pixi_world) pool" where
  "demo_two_idle = snd (release demo_hooks 1 (snd (release demo_hooks 0 demo_two_active)))"

text \<open>
  A component world in which a listener of another component is registered, a
  getter, and a shortcut registry that holds a callback under one of the keys
  of the tech page.
\<close>

definition demo_react :: "(string, string) react_world" where
  "demo_react = \<lparr>counter = 0, closures = [\<lambda>data c. c], listeners = [0], globals = ''state''\<rparr>"

definition demo_getter :: "string \<Rightarrow> string" where
  "demo_getter g = g"

definition demo_shortcuts :: "(string, string) shortcuts" where
  "demo_shortcuts = (\<lambda>k. None)(''TechPageUnlockTech'' := Some (Some ''previous''))"

section \<open>Properties of the pool\<close>

lemma allocate_reuse:
  "idle s \<noteq> [] \<Longrightarrow>
   allocate h k s =
     (idle s ! (k mod length (idle s)),
      s\<lparr>idle := remove1 (idle s ! (k mod length (idle s))) (idle s),
        active := idle s ! (k mod length (idle s)) # active s,
        world := onAllocate h (idle s ! (k mod length (idle s))) (world s)\<rparr>)"
  by (simp add: allocate_def Let_def)

lemma allocate_grow:
  "idle s = [] \<Longrightarrow>
   allocate h k s =
     (fst (create h (world s)),
      s\<lparr>active := fst (create h (world s)) # active s,
        created := fst (create h (world s)) # created s,
        world := onAllocate h (fst (create h (world s))) (snd (create h (world s)))\<rparr>)"
  by (simp add: allocate_def split: prod.splits)

lemma pool_inv_new: "pool_inv live (ObjectPool_new w)"
  by (simp add: pool_inv_def ObjectPool_new_def)

lemma pool_inv_allocate:
  assumes "constructs_new live h" and "pool_inv live s"
  shows "pool_inv live (snd (allocate h k s))"
proof (cases "idle s = []")
  case True
  let ?x = "fst (create h (world s))"
  let ?w = "snd (create h (world s))"
  from assms(1) have fresh: "?x \<notin> live (world s)" and grown: "insert ?x (live (world s)) \<subseteq> live ?w"
    and keep: "live ?w \<subseteq> live (onAllocate h ?x ?w)"
    by (simp_all add: constructs_new_def)
  from assms(2) fresh have "?x \<notin> set (created s)"
    by (auto simp: pool_inv_def)
  with assms(2) True grown keep show ?thesis
    by (auto simp: pool_inv_def allocate_grow)
next
  case False
  let ?x = "idle s ! (k mod length (idle s))"
  from False have mem: "?x \<in> set (idle s)" by simp
  from assms(1) have keep: "live (world s) \<subseteq> live (onAllocate h ?x (world s))"
    by (simp add: constructs_new_def)
  from assms(2) mem keep False show ?thesis
    by (auto simp: pool_inv_def allocate_reuse)
qed

lemma pool_inv_release:
  assumes "constructs_new live h" and "pool_inv live s"
  shows "pool_inv live (snd (release h obj s))"
proof (cases "obj \<in> set (active s)")
  case True
  from assms(1) have keep: "live (world s) \<subseteq> live (onRelease h obj (world s))"
    by (simp add: constructs_new_def)
  from assms(2) True keep show ?thesis
    by (auto simp: pool_inv_def release_def)
next
  case False
  with assms(2) show ?thesis by (simp add: release_def)
qed

lemma reachable_inv:
  assumes "constructs_new live h" and "reachable h s"
  shows "pool_inv live s"
  using assms(2)
proof (induction rule: reachable.induct)
  case (reachable_new w)
  show ?case by (rule pool_inv_new)
next
  case (reachable_allocate s k)
  with assms(1) show ?case by (simp add: pool_inv_allocate)
next
  case (reachable_release s obj)
  with assms(1) show ?case by (simp add: pool_inv_release)
qed


section \<open>The concrete scene, evaluated\<close>

lemmas demo_eval =
  demo_one_active_def demo_one_idle_def demo_two_active_def demo_two_idle_def
  demo_new_def demo_hooks_def demo_this_def demo_world_def
  TransportPool_constructor_def TransportPool_hooks_def TransportPool_create_def
  TransportPool_onAllocate_def TransportPool_onRelease_def
  Sprite_new_def addChild_def update_sprite_def console_assert_def
  ObjectPool_new_def allocate_def release_def Let_def

lemma demo_one_active_eval:
  "active demo_one_active = [0] \<and> idle demo_one_active = [] \<and> created demo_one_active = [0]"
  by (simp add: demo_eval)

lemma demo_one_idle_eval:
  "active demo_one_idle = [] \<and> idle demo_one_idle = [0] \<and> created demo_one_idle = [0]"
  by (simp add: demo_eval)

lemma demo_two_active_eval:
  "active demo_two_active = [1, 0] \<and> idle demo_two_active = [] \<and> created demo_two_active = [1, 0]"
  by (simp add: demo_eval)

lemma demo_two_idle_eval:
  "active demo_two_idle = [] \<and> idle demo_two_idle = [1, 0] \<and> created demo_two_idle = [1, 0]"
  by (simp add: demo_eval)

lemma length_update_sprite: "length (sprites (update_sprite r f w)) = length (sprites w)"
  by (simp add: update_sprite_def)

lemma length_addChild: "length (sprites (snd (addChild c r w))) = length (sprites w)"
  by (simp add: addChild_def Let_def update_sprite_def split: option.splits)

lemma fst_addChild: "fst (addChild c r w) = r"
  by (simp add: addChild_def Let_def)

lemma addChild_new:
  "addChild c (length (sprites w))
     (w\<lparr>sprites := sprites w @
         [\<lparr>texture = t, scale = \<lparr>px = 1, py = 1\<rparr>, anchor = \<lparr>px = 0, py = 0\<rparr>, alpha = 1,
           visible = True, parent = None, destroyed = False\<rparr>]\<rparr>) =
     (length (sprites w),
      \<lparr>sprites = sprites w @
          [\<lparr>texture = t, scale = \<lparr>px = 1, py = 1\<rparr>, anchor = \<lparr>px = 0, py = 0\<rparr>, alpha = 1,
            visible = True, parent = Some c, destroyed = False\<rparr>],
       children = (children w)(c := children w c @ [length (sprites w)]),
       console = console w\<rparr>)"
  by (simp add: addChild_def update_sprite_def Let_def)

lemma TransportPool_create_returns:
  assumes "instanceof_Texture (tp_texture this) \<or> \<not> truthy (tp_texture this)"
  shows "TransportPool_create this w =
     (Inr (length (sprites w)),
      \<lparr>sprites = sprites w @
          [\<lparr>texture = (if truthy (tp_texture this) then tp_texture this else Texture_EMPTY),
            scale = \<lparr>px = 0.15, py = 0.15\<rparr>, anchor = \<lparr>px = 1, py = 0.5\<rparr>, alpha = 1,
            visible = True, parent = Some (tp_parent this), destroyed = False\<rparr>],
       children = (children w)(tp_parent this := children w (tp_parent this) @ [length (sprites w)]),
       console = console w\<rparr>)"
proof -
  from assms have "\<not> (truthy (tp_texture this) \<and> \<not> instanceof_Texture (tp_texture this))"
    by blast
  then show ?thesis
    by (simp add: TransportPool_create_def Sprite_new_def addChild_new update_sprite_def)
qed

lemma TransportPool_create_raises:
  assumes "truthy (tp_texture this)" and "\<not> instanceof_Texture (tp_texture this)"
  shows "TransportPool_create this w = (Inl TypeError, w)"
  using assms by (simp add: TransportPool_create_def Sprite_new_def)

lemma TransportPool_constructs_new:
  assumes "instanceof_Texture (tp_texture this) \<or> \<not> truthy (tp_texture this)"
  shows "constructs_new live_sprites (TransportPool_hooks this)"
  by (auto simp: constructs_new_def live_sprites_def TransportPool_hooks_def
      TransportPool_create_returns [OF assms]
      TransportPool_onAllocate_def TransportPool_onRelease_def length_update_sprite)

lemma demo_reachable:
  "reachable demo_hooks demo_new \<and> reachable demo_hooks demo_one_active \<and>
   reachable demo_hooks demo_one_idle \<and> reachable demo_hooks demo_two_active \<and>
   reachable demo_hooks demo_two_idle"
proof -
  have r0: "reachable demo_hooks demo_new"
    by (simp add: demo_new_def TransportPool_constructor_def Let_def console_assert_def
        ObjectPool_new_def[symmetric] reachable_new)
  have r1: "reachable demo_hooks demo_one_active"
    unfolding demo_one_active_def by (rule reachable_allocate [OF r0])
  have r2: "reachable demo_hooks demo_one_idle"
    unfolding demo_one_idle_def by (rule reachable_release [OF r1])
  have r3: "reachable demo_hooks demo_two_active"
    unfolding demo_two_active_def by (rule reachable_allocate [OF r1])
  have r4: "reachable demo_hooks demo_two_idle"
    unfolding demo_two_idle_def by (rule reachable_release [OF reachable_release [OF r3]])
  from r0 r1 r2 r3 r4 show ?thesis by simp
qed

lemma demo_constructs_new: "constructs_new live_sprites demo_hooks"
proof -
  have "instanceof_Texture (tp_texture demo_this)"
    by (simp add: demo_this_def TransportPool_constructor_def Let_def)
  then show ?thesis
    by (simp add: demo_hooks_def TransportPool_constructs_new)
qed

section \<open>The pool: reuse, aliasing, partition, round trip, release\<close>

text \<open>
  Claim C1. \<open>allocate()\<close> reuses before it grows. When the idle set is not
  empty, the instance returned is one of the idle set, it is removed from the
  idle set (whose size drops by one), the construction hook is not invoked (the
  log of constructions is unchanged, and the world is changed by the
  on-allocate hook alone). When the idle set is empty, the instance is the one
  the construction hook returns, logged once. \<open>release\<close> never invokes the
  construction hook, so a release followed by one allocate leaves the number of
  constructions unchanged and returns an idle instance. In every reachable
  state no instance occurs twice in the log: each is constructed at most once.
\<close>

theorem allocate_reuses_before_growing:
  "(idle s \<noteq> [] \<longrightarrow>
      fst (allocate h k s) \<in> set (idle s) \<and>
      idle (snd (allocate h k s)) = remove1 (fst (allocate h k s)) (idle s) \<and>
      Suc (length (idle (snd (allocate h k s)))) = length (idle s) \<and>
      created (snd (allocate h k s)) = created s \<and>
      world (snd (allocate h k s)) = onAllocate h (fst (allocate h k s)) (world s)) \<and>
   (idle s = [] \<longrightarrow>
      fst (allocate h k s) = fst (create h (world s)) \<and>
      created (snd (allocate h k s)) = fst (create h (world s)) # created s) \<and>
   created (snd (release h obj s)) = created s \<and>
   (obj \<in> set (active s) \<longrightarrow>
      fst (allocate h k (snd (release h obj s))) \<in> set (idle (snd (release h obj s))) \<and>
      created (snd (allocate h k (snd (release h obj s)))) = created s) \<and>
   (constructs_new live h \<and> reachable h s \<longrightarrow> distinct (created s))"
proof (intro conjI impI)
  assume ne: "idle s \<noteq> []"
  then show "fst (allocate h k s) \<in> set (idle s)"
    by (simp add: allocate_reuse)
  from ne show "idle (snd (allocate h k s)) = remove1 (fst (allocate h k s)) (idle s)"
    by (simp add: allocate_reuse)
  from ne have "idle s ! (k mod length (idle s)) \<in> set (idle s)" by simp
  with ne show "Suc (length (idle (snd (allocate h k s)))) = length (idle s)"
    by (simp add: allocate_reuse length_remove1)
  from ne show "created (snd (allocate h k s)) = created s"
    by (simp add: allocate_reuse)
  from ne show "world (snd (allocate h k s)) = onAllocate h (fst (allocate h k s)) (world s)"
    by (simp add: allocate_reuse)
next
  assume "idle s = []"
  then show "fst (allocate h k s) = fst (create h (world s))"
    and "created (snd (allocate h k s)) = fst (create h (world s)) # created s"
    by (simp_all add: allocate_grow)
next
  show "created (snd (release h obj s)) = created s"
    by (simp add: release_def)
next
  assume "obj \<in> set (active s)"
  then have ne: "idle (snd (release h obj s)) \<noteq> []" and cr: "created (snd (release h obj s)) = created s"
    by (simp_all add: release_def)
  from ne show "fst (allocate h k (snd (release h obj s))) \<in> set (idle (snd (release h obj s)))"
    by (simp add: allocate_reuse)
  from ne cr show "created (snd (allocate h k (snd (release h obj s)))) = created s"
    by (simp add: allocate_reuse)
next
  assume "constructs_new live h \<and> reachable h s"
  then have "pool_inv live s" by (blast intro: reachable_inv)
  then show "distinct (created s)" by (simp add: pool_inv_def)
qed

theorem allocate_reuses_before_growing_witness:
  "idle demo_one_idle \<noteq> [] \<and>
   fst (allocate demo_hooks 3 demo_one_idle) = 0 \<and>
   length (created (snd (allocate demo_hooks 3 demo_one_idle))) = 1 \<and>
   length (created demo_one_idle) = 1 \<and>
   idle demo_new = [] \<and>
   length (created (snd (allocate demo_hooks 3 demo_new))) = 1 \<and>
   length (created demo_new) = 0 \<and>
   0 \<in> set (active demo_one_active) \<and>
   length (created (snd (allocate demo_hooks 3 (snd (release demo_hooks 0 demo_one_active))))) = 1 \<and>
   constructs_new live_sprites demo_hooks \<and> reachable demo_hooks demo_two_idle \<and>
   distinct (created demo_two_idle)"
  using allocate_reuses_before_growing [of demo_one_idle demo_hooks 3 0 live_sprites]
    allocate_reuses_before_growing [of demo_new demo_hooks 3 0 live_sprites]
    allocate_reuses_before_growing [of demo_one_active demo_hooks 3 0 live_sprites]
    allocate_reuses_before_growing [of demo_two_idle demo_hooks 3 0 live_sprites]
    demo_constructs_new demo_reachable
    demo_one_idle_eval demo_one_active_eval
  by (simp add: demo_new_def TransportPool_constructor_def ObjectPool_new_def Let_def)

text \<open>
  Claim C2. In every reachable state the instance returned by \<open>allocate()\<close>
  is not in the active set, whichever idle instance is selected, and two
  consecutive \<open>allocate()\<close> calls return distinct instances.
\<close>

theorem allocate_no_aliasing:
  assumes "constructs_new live h" and "reachable h s"
  shows "fst (allocate h k s) \<notin> set (active s) \<and>
         fst (allocate h k' (snd (allocate h k s))) \<noteq> fst (allocate h k s)"
proof -
  have fresh: "fst (allocate h j t) \<notin> set (active t)" if "pool_inv live t" for j t
  proof (cases "idle t = []")
    case True
    from assms(1) have "fst (create h (world t)) \<notin> live (world t)"
      by (simp add: constructs_new_def)
    with that True show ?thesis
      by (auto simp: pool_inv_def allocate_grow)
  next
    case False
    then have "idle t ! (j mod length (idle t)) \<in> set (idle t)" by simp
    with that False show ?thesis
      by (auto simp: pool_inv_def allocate_reuse)
  qed
  from assms have inv: "pool_inv live s" by (rule reachable_inv)
  then have inv': "pool_inv live (snd (allocate h k s))"
    using assms(1) by (simp add: pool_inv_allocate)
  have mem: "fst (allocate h k s) \<in> set (active (snd (allocate h k s)))"
    by (cases "idle s = []") (simp_all add: allocate_grow allocate_reuse)
  from fresh [OF inv'] mem have "fst (allocate h k' (snd (allocate h k s))) \<noteq> fst (allocate h k s)"
    by metis
  with fresh [OF inv] show ?thesis by simp
qed

theorem allocate_no_aliasing_witness:
  "constructs_new live_sprites demo_hooks \<and> reachable demo_hooks demo_one_active \<and>
   fst (allocate demo_hooks 0 demo_one_active) \<notin> set (active demo_one_active) \<and>
   fst (allocate demo_hooks 0 (snd (allocate demo_hooks 0 demo_one_active)))
     \<noteq> fst (allocate demo_hooks 0 demo_one_active)"
  using allocate_no_aliasing [of live_sprites demo_hooks demo_one_active 0 0]
    demo_constructs_new demo_reachable
  by simp


text \<open>
  Claim C3. In every reachable state the active set and the idle set are
  disjoint, their union is the set of all instances the pool has created, so
  every created instance is in exactly one of the two; neither list repeats an
  instance, so the lengths are the sizes. Every created instance still exists
  in the world, and no operation removes an instance from the pool: the log of
  creations only grows and the total size never drops.
\<close>

theorem pool_partition:
  assumes "constructs_new live h" and "reachable h s"
  shows "set (active s) \<inter> set (idle s) = {} \<and>
         set (active s) \<union> set (idle s) = set (created s) \<and>
         (\<forall>obj \<in> set (created s). (obj \<in> set (active s)) \<noteq> (obj \<in> set (idle s))) \<and>
         distinct (active s) \<and> distinct (idle s) \<and>
         set (created s) \<subseteq> live (world s) \<and>
         set (created s) \<subseteq> set (created (snd (allocate h k s))) \<and>
         set (created s) = set (created (snd (release h obj' s))) \<and>
         length (active s) + length (idle s)
           \<le> length (active (snd (allocate h k s))) + length (idle (snd (allocate h k s))) \<and>
         length (active s) + length (idle s)
           = length (active (snd (release h obj' s))) + length (idle (snd (release h obj' s)))"
proof -
  from assms have inv: "pool_inv live s" by (rule reachable_inv)
  have a: "set (created s) \<subseteq> set (created (snd (allocate h k s)))"
    by (cases "idle s = []") (auto simp: allocate_grow allocate_reuse)
  have b: "set (created s) = set (created (snd (release h obj' s)))"
    by (simp add: release_def)
  have c: "length (active s) + length (idle s)
           \<le> length (active (snd (allocate h k s))) + length (idle (snd (allocate h k s)))"
  proof (cases "idle s = []")
    case True
    then show ?thesis by (simp add: allocate_grow)
  next
    case False
    then have "idle s ! (k mod length (idle s)) \<in> set (idle s)" and "0 < length (idle s)"
      by simp_all
    with False show ?thesis
      by (simp add: allocate_reuse length_remove1)
  qed
  have d: "length (active s) + length (idle s)
           = length (active (snd (release h obj' s))) + length (idle (snd (release h obj' s)))"
  proof (cases "obj' \<in> set (active s)")
    case True
    moreover from True have "0 < length (active s)" by (cases "active s") simp_all
    ultimately show ?thesis
      by (simp add: release_def length_remove1)
  next
    case False
    then show ?thesis by (simp add: release_def)
  qed
  from inv have "set (active s) \<inter> set (idle s) = {}"
    and "set (active s) \<union> set (idle s) = set (created s)"
    and "distinct (active s)" and "distinct (idle s)"
    and "set (created s) \<subseteq> live (world s)"
    by (simp_all add: pool_inv_def)
  moreover from this(1,2) have "\<forall>obj \<in> set (created s). (obj \<in> set (active s)) \<noteq> (obj \<in> set (idle s))"
    by blast
  ultimately show ?thesis using a b c d by simp
qed

theorem pool_partition_witness:
  "constructs_new live_sprites demo_hooks \<and> reachable demo_hooks demo_two_idle \<and>
   set (active demo_two_idle) \<inter> set (idle demo_two_idle) = {} \<and>
   set (active demo_two_idle) \<union> set (idle demo_two_idle) = set (created demo_two_idle) \<and>
   1 \<in> set (created demo_two_idle) \<and>
   (1 \<in> set (active demo_two_idle)) \<noteq> (1 \<in> set (idle demo_two_idle)) \<and>
   set (created demo_two_idle) \<subseteq> live_sprites (world demo_two_idle)"
proof -
  have r: "reachable demo_hooks demo_two_idle"
    using demo_reachable by simp
  note p = pool_partition [OF demo_constructs_new r, of 0 0]
  from p have a: "set (active demo_two_idle) \<inter> set (idle demo_two_idle) = {}"
    and b: "set (active demo_two_idle) \<union> set (idle demo_two_idle) = set (created demo_two_idle)"
    and c: "\<forall>obj \<in> set (created demo_two_idle).
              (obj \<in> set (active demo_two_idle)) \<noteq> (obj \<in> set (idle demo_two_idle))"
    and d: "set (created demo_two_idle) \<subseteq> live_sprites (world demo_two_idle)"
    by blast+
  have m: "1 \<in> set (created demo_two_idle)"
    by (simp add: demo_two_idle_eval)
  with c have "(1 \<in> set (active demo_two_idle)) \<noteq> (1 \<in> set (idle demo_two_idle))"
    by blast
  with a b d m r demo_constructs_new show ?thesis
    by blast
qed

text \<open>
  Claim C5. Releasing an instance that is not in the active set takes the fault
  path and leaves the whole pool state as it was. Releasing an instance of the
  active set removes it from the active set, runs the on-release hook on it and
  inserts it into the idle set. In a reachable state the instance is then no
  longer active, so releasing it a second time takes the fault path.
\<close>

theorem release_checks_precondition:
  "(obj \<notin> set (active s) \<longrightarrow> release h obj s = (AssertionFault, s)) \<and>
   (obj \<in> set (active s) \<longrightarrow>
      fst (release h obj s) = Released \<and>
      active (snd (release h obj s)) = remove1 obj (active s) \<and>
      idle (snd (release h obj s)) = obj # idle s \<and>
      world (snd (release h obj s)) = onRelease h obj (world s) \<and>
      created (snd (release h obj s)) = created s) \<and>
   (constructs_new live h \<and> reachable h s \<and> obj \<in> set (active s) \<longrightarrow>
      obj \<notin> set (active (snd (release h obj s))) \<and>
      release h obj (snd (release h obj s)) = (AssertionFault, snd (release h obj s)))"
proof (intro conjI impI)
  assume "obj \<notin> set (active s)"
  then show "release h obj s = (AssertionFault, s)"
    by (simp add: release_def)
next
  assume "obj \<in> set (active s)"
  then show "fst (release h obj s) = Released"
    and "active (snd (release h obj s)) = remove1 obj (active s)"
    and "idle (snd (release h obj s)) = obj # idle s"
    and "world (snd (release h obj s)) = onRelease h obj (world s)"
    and "created (snd (release h obj s)) = created s"
    by (simp_all add: release_def)
next
  assume a: "constructs_new live h \<and> reachable h s \<and> obj \<in> set (active s)"
  then have "pool_inv live s" by (blast intro: reachable_inv)
  then have "distinct (active s)" by (simp add: pool_inv_def)
  with a show gone: "obj \<notin> set (active (snd (release h obj s)))"
    by (simp add: release_def)
  then show "release h obj (snd (release h obj s)) = (AssertionFault, snd (release h obj s))"
    by (simp add: release_def)
qed

theorem release_checks_precondition_witness:
  "5 \<notin> set (active demo_two_active) \<and>
   release demo_hooks 5 demo_two_active = (AssertionFault, demo_two_active) \<and>
   1 \<in> set (active demo_two_active) \<and>
   fst (release demo_hooks 1 demo_two_active) = Released \<and>
   active (snd (release demo_hooks 1 demo_two_active)) = [0] \<and>
   idle (snd (release demo_hooks 1 demo_two_active)) = [1] \<and>
   constructs_new live_sprites demo_hooks \<and> reachable demo_hooks demo_two_active \<and>
   fst (release demo_hooks 1 (snd (release demo_hooks 1 demo_two_active))) = AssertionFault"
  using release_checks_precondition [of 5 demo_two_active demo_hooks live_sprites]
    release_checks_precondition [of 1 demo_two_active demo_hooks live_sprites]
    demo_constructs_new demo_reachable demo_two_active_eval
  by simp


lemma allocate_step:
  "active (snd (allocate h k s)) = fst (allocate h k s) # active s \<and>
   length (idle (snd (allocate h k s))) = length (idle s) - 1"
proof (cases "idle s = []")
  case True
  then show ?thesis by (simp add: allocate_grow)
next
  case False
  then have "idle s ! (k mod length (idle s)) \<in> set (idle s)" by simp
  with False show ?thesis by (simp add: allocate_reuse length_remove1)
qed

lemma allocate_many_Cons:
  "allocate_many h (k # ks) s =
     (fst (allocate h k s) # fst (allocate_many h ks (snd (allocate h k s))),
      snd (allocate_many h ks (snd (allocate h k s))))"
  by (simp add: case_prod_beta)

lemma release_many_Cons:
  "release_many h (y # ys) s =
     (fst (release h y s) = AssertionFault \<or> fst (release_many h ys (snd (release h y s))),
      snd (release_many h ys (snd (release h y s))))"
  by (simp add: case_prod_beta)

lemma allocate_many_props:
  assumes "constructs_new live h"
  shows "pool_inv live s \<Longrightarrow>
         pool_inv live (snd (allocate_many h ks s)) \<and>
         length (fst (allocate_many h ks s)) = length ks \<and>
         active (snd (allocate_many h ks s)) = rev (fst (allocate_many h ks s)) @ active s \<and>
         length (idle (snd (allocate_many h ks s))) = length (idle s) - length ks"
proof (induction ks arbitrary: s)
  case Nil
  then show ?case by simp
next
  case (Cons k ks)
  let ?s1 = "snd (allocate h k s)"
  from Cons.prems assms have inv1: "pool_inv live ?s1"
    by (simp add: pool_inv_allocate)
  note ih = Cons.IH [OF inv1]
  from ih allocate_step [of h k s] show ?case
    by (simp add: allocate_many_Cons del: allocate_many.simps)
qed

lemma release_many_props:
  assumes "constructs_new live h"
  shows "pool_inv live s \<Longrightarrow> distinct ys \<Longrightarrow> set ys \<subseteq> set (active s) \<Longrightarrow>
         fst (release_many h ys s) = False \<and>
         pool_inv live (snd (release_many h ys s)) \<and>
         set (active (snd (release_many h ys s))) = set (active s) - set ys \<and>
         length (idle (snd (release_many h ys s))) = length (idle s) + length ys"
proof (induction ys arbitrary: s)
  case Nil
  then show ?case by simp
next
  case (Cons y ys)
  let ?s1 = "snd (release h y s)"
  from Cons.prems have mem: "y \<in> set (active s)" by simp
  from Cons.prems have d: "distinct (active s)" by (simp add: pool_inv_def)
  from mem have rel: "fst (release h y s) = Released"
    and act: "active ?s1 = remove1 y (active s)"
    and idl: "idle ?s1 = y # idle s"
    by (simp_all add: release_def)
  from Cons.prems assms have inv1: "pool_inv live ?s1"
    by (simp add: pool_inv_release)
  from d act have set1: "set (active ?s1) = set (active s) - {y}"
    by simp
  from Cons.prems set1 have sub: "set ys \<subseteq> set (active ?s1)"
    by auto
  from Cons.prems have dys: "distinct ys" by simp
  note ih = Cons.IH [OF inv1 dys sub]
  from ih rel set1 idl show ?case
    by (auto simp add: release_many_Cons simp del: release_many.simps)
qed

text \<open>
  Claim C4, as amended. From a reachable state with an empty active set, after
  N allocations (whatever the selections) followed by the release of the
  allocated instances in any order, no release has taken the fault path, the
  active set is empty, and the size of the idle set is the maximum of N and its
  size at the start; so it is N when the pool started with at most N idle
  instances, a new pool in particular.
\<close>

theorem allocate_release_round_trip:
  assumes "constructs_new live h" and "reachable h s" and "active s = []"
    and "mset ys = mset (fst (allocate_many h ks s))"
  shows "fst (release_many h ys (snd (allocate_many h ks s))) = False \<and>
         active (snd (release_many h ys (snd (allocate_many h ks s)))) = [] \<and>
         length (idle (snd (release_many h ys (snd (allocate_many h ks s)))))
           = max (length ks) (length (idle s))"
proof -
  let ?xs = "fst (allocate_many h ks s)"
  let ?s1 = "snd (allocate_many h ks s)"
  from assms(1,2) have inv: "pool_inv live s" by (rule reachable_inv)
  from allocate_many_props [OF assms(1) inv, of ks]
  have inv1: "pool_inv live ?s1" and len: "length ?xs = length ks"
    and act: "active ?s1 = rev ?xs" and idl: "length (idle ?s1) = length (idle s) - length ks"
    using assms(3) by simp_all
  from inv1 act have "distinct ?xs" by (simp add: pool_inv_def)
  with assms(4) have dys: "distinct ys"
    using mset_eq_imp_distinct_iff by blast
  from assms(4) have sets: "set ys = set ?xs" by (rule mset_eq_setD)
  from assms(4) have lys: "length ys = length ?xs" by (rule mset_eq_length)
  from sets act have sub: "set ys \<subseteq> set (active ?s1)" by simp
  from release_many_props [OF assms(1) inv1 dys sub]
  have nofault: "fst (release_many h ys ?s1) = False"
    and act2: "set (active (snd (release_many h ys ?s1))) = set (active ?s1) - set ys"
    and idl2: "length (idle (snd (release_many h ys ?s1))) = length (idle ?s1) + length ys"
    by simp_all
  from act2 sets act have "active (snd (release_many h ys ?s1)) = []" by simp
  moreover from idl2 idl lys len
  have "length (idle (snd (release_many h ys ?s1))) = max (length ks) (length (idle s))"
    by simp
  ultimately show ?thesis using nofault by simp
qed


theorem allocate_release_round_trip_witness:
  "constructs_new live_sprites demo_hooks \<and> reachable demo_hooks demo_one_idle \<and>
   active demo_one_idle = [] \<and>
   mset [1, 0] = mset (fst (allocate_many demo_hooks [0, 0] demo_one_idle)) \<and>
   fst (release_many demo_hooks [1, 0] (snd (allocate_many demo_hooks [0, 0] demo_one_idle))) = False \<and>
   active (snd (release_many demo_hooks [1, 0] (snd (allocate_many demo_hooks [0, 0] demo_one_idle)))) = [] \<and>
   length (idle (snd (release_many demo_hooks [1, 0] (snd (allocate_many demo_hooks [0, 0] demo_one_idle)))))
     = max (length [0 :: nat, 0]) (length (idle demo_one_idle))"
proof -
  have r: "reachable demo_hooks demo_one_idle"
    using demo_reachable by simp
  have a: "active demo_one_idle = []"
    by (simp add: demo_one_idle_eval)
  have m: "mset [1, 0] = mset (fst (allocate_many demo_hooks [0, 0] demo_one_idle))"
    by (simp add: demo_eval)
  note t = allocate_release_round_trip [OF demo_constructs_new r a m]
  from demo_constructs_new r a m t show ?thesis
    by (intro conjI) blast+
qed

text \<open>
  The round trip does not give an idle set of size N from every state with an
  empty active set: with two idle instances at the start, one allocation and its
  release leave two idle instances, not one.
\<close>

theorem round_trip_idle_size_counterexample:
  "reachable demo_hooks demo_two_idle \<and> active demo_two_idle = [] \<and> length [0 :: nat] = 1 \<and>
   fst (release_many demo_hooks (fst (allocate_many demo_hooks [0] demo_two_idle))
         (snd (allocate_many demo_hooks [0] demo_two_idle))) = False \<and>
   length (idle (snd (release_many demo_hooks (fst (allocate_many demo_hooks [0] demo_two_idle))
         (snd (allocate_many demo_hooks [0] demo_two_idle))))) \<noteq> 1"
proof -
  have r: "reachable demo_hooks demo_two_idle"
    using demo_reachable by simp
  have a: "active demo_two_idle = []"
    by (simp add: demo_two_idle_eval)
  have l: "length (idle (snd (release_many demo_hooks (fst (allocate_many demo_hooks [0] demo_two_idle))
         (snd (allocate_many demo_hooks [0] demo_two_idle))))) = 2"
    by (simp add: demo_eval)
  have f: "fst (release_many demo_hooks (fst (allocate_many demo_hooks [0] demo_two_idle))
         (snd (allocate_many demo_hooks [0] demo_two_idle))) = False"
    by (simp add: demo_eval)
  from l have "length (idle (snd (release_many demo_hooks (fst (allocate_many demo_hooks [0] demo_two_idle))
         (snd (allocate_many demo_hooks [0] demo_two_idle))))) \<noteq> 1"
    by simp
  with r a f show ?thesis by simp
qed



section \<open>Properties of the TransportPool overrides\<close>

lemma demo_sprite_count: "length (sprites (world demo_two_active)) = 2"
  by (simp add: demo_eval)

text \<open>
  Claim C6. For every sprite of the world, \<open>TransportPool.onRelease\<close> sets its
  alpha to 0 and leaves it undestroyed, \<open>TransportPool.onAllocate\<close> sets its
  alpha to \<open>TransportPool.DefaultAlpha\<close>, which is 0.5, and neither changes
  anything else: the other fields of the sprite, every other sprite, the number
  of sprites, the containers' children, the console, and the active and idle
  sets of the pool are as before.
\<close>

theorem TransportPool_hooks_frame:
  "DefaultAlpha = 0.5 \<and>
   (obj < length (sprites w) \<longrightarrow>
      sprites (TransportPool_onRelease obj w) ! obj = (sprites w ! obj)\<lparr>alpha := 0\<rparr> \<and>
      alpha (sprites (TransportPool_onRelease obj w) ! obj) = 0 \<and>
      destroyed (sprites (TransportPool_onRelease obj w) ! obj) = destroyed (sprites w ! obj) \<and>
      sprites (TransportPool_onAllocate obj w) ! obj = (sprites w ! obj)\<lparr>alpha := DefaultAlpha\<rparr> \<and>
      alpha (sprites (TransportPool_onAllocate obj w) ! obj) = 0.5) \<and>
   (r \<noteq> obj \<longrightarrow>
      sprites (TransportPool_onRelease obj w) ! r = sprites w ! r \<and>
      sprites (TransportPool_onAllocate obj w) ! r = sprites w ! r) \<and>
   length (sprites (TransportPool_onRelease obj w)) = length (sprites w) \<and>
   length (sprites (TransportPool_onAllocate obj w)) = length (sprites w) \<and>
   children (TransportPool_onRelease obj w) = children w \<and>
   children (TransportPool_onAllocate obj w) = children w \<and>
   console (TransportPool_onRelease obj w) = console w \<and>
   console (TransportPool_onAllocate obj w) = console w \<and>
   active (s\<lparr>world := TransportPool_onRelease obj (world s)\<rparr>) = active s \<and>
   idle (s\<lparr>world := TransportPool_onRelease obj (world s)\<rparr>) = idle s \<and>
   active (s\<lparr>world := TransportPool_onAllocate obj (world s)\<rparr>) = active s \<and>
   idle (s\<lparr>world := TransportPool_onAllocate obj (world s)\<rparr>) = idle s"
  by (simp add: DefaultAlpha_def TransportPool_onRelease_def TransportPool_onAllocate_def
      update_sprite_def)

theorem TransportPool_hooks_frame_witness:
  "0 < length (sprites (world demo_two_active)) \<and>
   alpha (sprites (TransportPool_onRelease 0 (world demo_two_active)) ! 0) = 0 \<and>
   alpha (sprites (TransportPool_onAllocate 0 (world demo_two_active)) ! 0) = 0.5 \<and>
   destroyed (sprites (TransportPool_onRelease 0 (world demo_two_active)) ! 0)
     = destroyed (sprites (world demo_two_active) ! 0) \<and>
   (1 :: nat) \<noteq> 0 \<and>
   sprites (TransportPool_onRelease 0 (world demo_two_active)) ! 1 = sprites (world demo_two_active) ! 1 \<and>
   sprites (TransportPool_onAllocate 0 (world demo_two_active)) ! 1 = sprites (world demo_two_active) ! 1"
  using TransportPool_hooks_frame [of 0 "world demo_two_active" 1 demo_two_active]
    demo_sprite_count
  by simp

text \<open>
  Claim C7. The constructor of \<open>TransportPool\<close> reports a texture that is not
  a \<open>Texture\<close> through its assertion: the message "Texture is not valid" is
  logged exactly when the texture argument is not a \<open>Texture\<close> instance, so
  an invalid texture never passes the check silently. The assertion does not
  stop the constructor: in both cases the fields are set from the arguments,
  the pool starts empty and the display objects are untouched.
\<close>

theorem TransportPool_constructor_asserts:
  "console (world (snd (TransportPool_constructor t p w)))
     = (if instanceof_Texture t then console w else console w @ [''Texture is not valid'']) \<and>
   (console (world (snd (TransportPool_constructor t p w))) \<noteq> console w
      \<longleftrightarrow> \<not> instanceof_Texture t) \<and>
   (instanceof_Texture t \<longleftrightarrow> (case t of TextureObj n \<Rightarrow> True | _ \<Rightarrow> False)) \<and>
   tp_texture (fst (TransportPool_constructor t p w)) = t \<and>
   tp_parent (fst (TransportPool_constructor t p w)) = p \<and>
   active (snd (TransportPool_constructor t p w)) = [] \<and>
   idle (snd (TransportPool_constructor t p w)) = [] \<and>
   sprites (world (snd (TransportPool_constructor t p w))) = sprites w \<and>
   children (world (snd (TransportPool_constructor t p w))) = children w"
  by (cases t) (simp_all add: TransportPool_constructor_def console_assert_def ObjectPool_new_def Let_def)

theorem TransportPool_constructor_asserts_witness:
  "console (world (snd (TransportPool_constructor Undefined 0 demo_world))) = [''Texture is not valid''] \<and>
   console (world (snd (TransportPool_constructor (TextureObj 7) 0 demo_world))) = [] \<and>
   tp_texture (fst (TransportPool_constructor Undefined 0 demo_world)) = Undefined"
  using TransportPool_constructor_asserts [of Undefined 0 demo_world]
    TransportPool_constructor_asserts [of "TextureObj 7" 0 demo_world]
  by (simp add: demo_world_def)

text \<open>
  Claim C8. \<open>TransportPool.create()\<close> takes nothing but the pool object. For a
  pool whose texture is a \<open>Texture\<close> (or \<open>undefined\<close> or \<open>null\<close>,
  which \<open>new Sprite\<close> accepts) it returns a sprite that did not exist before
  and exists afterwards, the sprites that existed being unchanged; the sprite
  has scale (0.15, 0.15) and anchor (1, 0.5); its parent is the pool's parent
  container, whose children are the former ones followed by the sprite; no
  other container changes; and this is what the pool's construction hook
  returns. When the texture is a \<open>Texture\<close>, it is the sprite's texture. For
  any other texture \<open>create()\<close> raises a \<open>TypeError\<close> and changes nothing.
\<close>

theorem TransportPool_create_wired:
  "(instanceof_Texture (tp_texture this) \<or> \<not> truthy (tp_texture this) \<longrightarrow>
      fst (TransportPool_create this w) = Inr (length (sprites w)) \<and>
      create (TransportPool_hooks this) w = (length (sprites w), snd (TransportPool_create this w)) \<and>
      length (sprites w) \<notin> live_sprites w \<and>
      length (sprites w) \<in> live_sprites (snd (TransportPool_create this w)) \<and>
      take (length (sprites w)) (sprites (snd (TransportPool_create this w))) = sprites w \<and>
      length (sprites (snd (TransportPool_create this w))) = Suc (length (sprites w)) \<and>
      scale (sprites (snd (TransportPool_create this w)) ! length (sprites w))
        = \<lparr>px = 0.15, py = 0.15\<rparr> \<and>
      px (anchor (sprites (snd (TransportPool_create this w)) ! length (sprites w))) = 1 \<and>
      py (anchor (sprites (snd (TransportPool_create this w)) ! length (sprites w))) = 0.5 \<and>
      parent (sprites (snd (TransportPool_create this w)) ! length (sprites w))
        = Some (tp_parent this) \<and>
      children (snd (TransportPool_create this w)) (tp_parent this)
        = children w (tp_parent this) @ [length (sprites w)] \<and>
      (c \<noteq> tp_parent this \<longrightarrow> children (snd (TransportPool_create this w)) c = children w c) \<and>
      console (snd (TransportPool_create this w)) = console w) \<and>
   (instanceof_Texture (tp_texture this) \<longrightarrow>
      texture (sprites (snd (TransportPool_create this w)) ! length (sprites w)) = tp_texture this) \<and>
   (truthy (tp_texture this) \<and> \<not> instanceof_Texture (tp_texture this) \<longrightarrow>
      TransportPool_create this w = (Inl TypeError, w))"
proof (intro conjI impI)
  assume ok: "instanceof_Texture (tp_texture this) \<or> \<not> truthy (tp_texture this)"
  note eq = TransportPool_create_returns [OF ok, of w]
  show "fst (TransportPool_create this w) = Inr (length (sprites w))"
    and "create (TransportPool_hooks this) w = (length (sprites w), snd (TransportPool_create this w))"
    and "length (sprites w) \<notin> live_sprites w"
    and "length (sprites w) \<in> live_sprites (snd (TransportPool_create this w))"
    and "take (length (sprites w)) (sprites (snd (TransportPool_create this w))) = sprites w"
    and "length (sprites (snd (TransportPool_create this w))) = Suc (length (sprites w))"
    and "scale (sprites (snd (TransportPool_create this w)) ! length (sprites w))
        = \<lparr>px = 0.15, py = 0.15\<rparr>"
    and "px (anchor (sprites (snd (TransportPool_create this w)) ! length (sprites w))) = 1"
    and "py (anchor (sprites (snd (TransportPool_create this w)) ! length (sprites w))) = 0.5"
    and "parent (sprites (snd (TransportPool_create this w)) ! length (sprites w))
        = Some (tp_parent this)"
    and "children (snd (TransportPool_create this w)) (tp_parent this)
        = children w (tp_parent this) @ [length (sprites w)]"
    and "console (snd (TransportPool_create this w)) = console w"
    by (simp_all add: eq live_sprites_def TransportPool_hooks_def)
  show "children (snd (TransportPool_create this w)) c = children w c" if "c \<noteq> tp_parent this"
    using that by (simp add: eq)
next
  assume tex: "instanceof_Texture (tp_texture this)"
  then have "truthy (tp_texture this)"
    by (cases "tp_texture this") simp_all
  with tex show "texture (sprites (snd (TransportPool_create this w)) ! length (sprites w)) = tp_texture this"
    by (simp add: TransportPool_create_returns)
next
  assume "truthy (tp_texture this) \<and> \<not> instanceof_Texture (tp_texture this)"
  then show "TransportPool_create this w = (Inl TypeError, w)"
    by (simp add: TransportPool_create_raises)
qed

theorem TransportPool_create_wired_witness:
  "(instanceof_Texture (tp_texture demo_this) \<or> \<not> truthy (tp_texture demo_this)) \<and>
   instanceof_Texture (tp_texture demo_this) \<and>
   fst (TransportPool_create demo_this demo_world) = Inr 0 \<and>
   create (TransportPool_hooks demo_this) demo_world = (0, snd (TransportPool_create demo_this demo_world)) \<and>
   texture (sprites (snd (TransportPool_create demo_this demo_world)) ! 0) = TextureObj 7 \<and>
   scale (sprites (snd (TransportPool_create demo_this demo_world)) ! 0) = \<lparr>px = 0.15, py = 0.15\<rparr> \<and>
   parent (sprites (snd (TransportPool_create demo_this demo_world)) ! 0) = Some 0 \<and>
   children (snd (TransportPool_create demo_this demo_world)) 0 = [0] \<and>
   (1 :: nat) \<noteq> tp_parent demo_this \<and>
   children (snd (TransportPool_create demo_this demo_world)) 1 = [] \<and>
   truthy (tp_texture (fst (TransportPool_constructor (OtherObj 1) 0 demo_world))) \<and>
   \<not> instanceof_Texture (tp_texture (fst (TransportPool_constructor (OtherObj 1) 0 demo_world))) \<and>
   TransportPool_create (fst (TransportPool_constructor (OtherObj 1) 0 demo_world)) demo_world
     = (Inl TypeError, demo_world)"
proof -
  have d: "demo_this = \<lparr>tp_texture = TextureObj 7, tp_parent = 0\<rparr>"
    by (simp add: demo_this_def TransportPool_constructor_def Let_def)
  have s: "sprites demo_world = []" and c: "children demo_world = (\<lambda>c. [])"
    by (simp_all add: demo_world_def)
  have g: "instanceof_Texture (tp_texture demo_this) \<or> \<not> truthy (tp_texture demo_this)"
    and i: "instanceof_Texture (tp_texture demo_this)"
    and n: "(1 :: nat) \<noteq> tp_parent demo_this"
    by (simp_all add: d)
  have b: "truthy (tp_texture (fst (TransportPool_constructor (OtherObj 1) 0 demo_world)))"
    "\<not> instanceof_Texture (tp_texture (fst (TransportPool_constructor (OtherObj 1) 0 demo_world)))"
    by (simp_all add: TransportPool_constructor_def Let_def)
  note t = TransportPool_create_wired [of demo_this demo_world 1]
  note u = TransportPool_create_wired
    [of "fst (TransportPool_constructor (OtherObj 1) 0 demo_world)" demo_world 1]
  from u b have r: "TransportPool_create (fst (TransportPool_constructor (OtherObj 1) 0 demo_world)) demo_world
     = (Inl TypeError, demo_world)"
    by blast
  from t g i n have "fst (TransportPool_create demo_this demo_world) = Inr 0"
    and "create (TransportPool_hooks demo_this) demo_world = (0, snd (TransportPool_create demo_this demo_world))"
    and "texture (sprites (snd (TransportPool_create demo_this demo_world)) ! 0) = TextureObj 7"
    and "scale (sprites (snd (TransportPool_create demo_this demo_world)) ! 0) = \<lparr>px = 0.15, py = 0.15\<rparr>"
    and "parent (sprites (snd (TransportPool_create demo_this demo_world)) ! 0) = Some 0"
    and "children (snd (TransportPool_create demo_this demo_world)) 0 = [0]"
    and "children (snd (TransportPool_create demo_this demo_world)) 1 = []"
    by (simp_all add: d s c)
  with g i n b r show ?thesis
    by blast
qed

section \<open>Properties of the hooks of Hook.ts\<close>


text \<open>
  Claim C9. For every shortcut key, the effect that \<open>useShortcut\<close> installs
  sets the registry entry of the key to the callback and leaves every other
  entry as it was; its cleanup sets the entry of the key to \<open>undefined\<close>,
  whatever the registry holds then and whatever the entry was before the
  effect (the previous value is not restored), and leaves every other entry as
  it was. The dependency array is the key, the callback and the given
  dependencies.
\<close>

theorem useShortcut_sets_and_clears:
  "fst (fst (useShortcut k cb deps) reg) k = Some (Some cb) \<and>
   (k' \<noteq> k \<longrightarrow> fst (fst (useShortcut k cb deps) reg) k' = reg k') \<and>
   snd (fst (useShortcut k cb deps) reg) reg' k = Some None \<and>
   (k' \<noteq> k \<longrightarrow> snd (fst (useShortcut k cb deps) reg) reg' k' = reg' k') \<and>
   snd (fst (useShortcut k cb deps) reg) (fst (fst (useShortcut k cb deps) reg)) k = Some None \<and>
   snd (useShortcut k cb deps) = DepShortcut k # DepCallback cb # map Dep deps"
  by (simp add: useShortcut_def)

theorem useShortcut_sets_and_clears_witness:
  "demo_shortcuts ''TechPageUnlockTech'' = Some (Some ''previous'') \<and>
   fst (fst (useShortcut ''TechPageUnlockTech'' ''unlock'' [0 :: nat]) demo_shortcuts) ''TechPageUnlockTech''
     = Some (Some ''unlock'') \<and>
   ''TechPageGoBackToCity'' \<noteq> ''TechPageUnlockTech'' \<and>
   fst (fst (useShortcut ''TechPageUnlockTech'' ''unlock'' [0 :: nat]) demo_shortcuts) ''TechPageGoBackToCity''
     = demo_shortcuts ''TechPageGoBackToCity'' \<and>
   snd (fst (useShortcut ''TechPageUnlockTech'' ''unlock'' [0 :: nat]) demo_shortcuts)
       (fst (fst (useShortcut ''TechPageUnlockTech'' ''unlock'' [0 :: nat]) demo_shortcuts))
       ''TechPageUnlockTech'' = Some None \<and>
   snd (fst (useShortcut ''TechPageUnlockTech'' ''unlock'' [0 :: nat]) demo_shortcuts)
       (fst (fst (useShortcut ''TechPageUnlockTech'' ''unlock'' [0 :: nat]) demo_shortcuts))
       ''TechPageUnlockTech'' \<noteq> demo_shortcuts ''TechPageUnlockTech'' \<and>
   snd (fst (useShortcut ''TechPageUnlockTech'' ''unlock'' [0 :: nat]) demo_shortcuts)
       (fst (fst (useShortcut ''TechPageUnlockTech'' ''unlock'' [0 :: nat]) demo_shortcuts))
       ''TechPageGoBackToCity'' = demo_shortcuts ''TechPageGoBackToCity''"
proof -
  have p: "demo_shortcuts ''TechPageUnlockTech'' = Some (Some ''previous'')"
    by (simp add: demo_shortcuts_def)
  have n: "''TechPageGoBackToCity'' \<noteq> ''TechPageUnlockTech''"
    by simp
  note t = useShortcut_sets_and_clears [of "''TechPageUnlockTech''" "''unlock''" "[0 :: nat]"
      demo_shortcuts "''TechPageGoBackToCity''"
      "fst (fst (useShortcut ''TechPageUnlockTech'' ''unlock'' [0 :: nat]) demo_shortcuts)"]
  from t n p show ?thesis by simp
qed

lemma observe_eq:
  "observe getter w =
     (getter (globals w),
      (\<lambda>ls. (TypedEvent_on (length (closures w)) ls, (\<lambda>ls'. TypedEvent_off (length (closures w)) ls'))),
      w\<lparr>closures := closures w @ [handleEvent]\<rparr>)"
  by (simp add: observe_def Let_def)

lemma off_on_fresh: "h \<notin> set ls \<Longrightarrow> TypedEvent_off h (TypedEvent_on h ls) = ls"
  by (simp add: TypedEvent_off_def TypedEvent_on_def)

lemma mount_eq:
  "mount getter w =
     (getter (globals w),
      (\<lambda>ls'. TypedEvent_off (length (closures w)) ls'),
      w\<lparr>counter := 0,
        closures := closures w @ [handleEvent],
        listeners := TypedEvent_on (length (closures w)) (listeners w)\<rparr>)"
  by (simp add: mount_def makeObservableHook_def observe_eq)

lemma call_listeners_old:
  "\<forall>l \<in> set ls. l < length fs \<Longrightarrow>
   call_listeners (fs @ [f]) data c ls = call_listeners fs data c ls"
  unfolding call_listeners_def
  by (induction ls arbitrary: c) (simp_all add: nth_append)

text \<open>
  Claim C10. The \<open>observe\<close> function of \<open>makeObservableHook\<close> returns
  \<open>getter()\<close>, also after the event has fired with any payload, which the
  getter's state does not see. Its effect registers the function
  \<open>handleEvent\<close> created by the same call and its cleanup deregisters that
  same function; a call of \<open>handleEvent\<close> with any payload adds one to the
  counter; a render changes neither the counter, the listeners nor the getter's
  state. When the listeners of the event are existing functions, mounting adds
  exactly that listener and starts the counter at 0, an emission then counts
  one more than it would have without the listener, and unmounting after
  mounting leaves the listeners of the event as they were.
\<close>

theorem observe_returns_getter:
  "fst (makeObservableHook getter w) = getter (globals w) \<and>
   fst (makeObservableHook getter (emit data w)) = getter (globals w) \<and>
   globals (emit data w) = globals w \<and>
   fst (fst (snd (makeObservableHook getter w)) ls) = TypedEvent_on (length (closures w)) ls \<and>
   snd (fst (snd (makeObservableHook getter w)) ls) ls' = TypedEvent_off (length (closures w)) ls' \<and>
   closures (snd (snd (makeObservableHook getter w))) ! length (closures w) = handleEvent \<and>
   handleEvent data c = c + 1 \<and>
   counter (snd (snd (makeObservableHook getter w))) = counter w \<and>
   listeners (snd (snd (makeObservableHook getter w))) = listeners w \<and>
   globals (snd (snd (makeObservableHook getter w))) = globals w \<and>
   (list_all (\<lambda>l. l < length (closures w)) (listeners w) \<longrightarrow>
      listeners (snd (snd (mount getter w))) = listeners w @ [length (closures w)] \<and>
      counter (snd (snd (mount getter w))) = 0 \<and>
      counter (emit data (snd (snd (mount getter w)))) = counter (emit data (w\<lparr>counter := 0\<rparr>)) + 1 \<and>
      listeners (unmount (fst (snd (mount getter w))) (snd (snd (mount getter w)))) = listeners w)"
proof -
  have "listeners (unmount (fst (snd (mount getter w))) (snd (snd (mount getter w)))) = listeners w"
    and "listeners (snd (snd (mount getter w))) = listeners w @ [length (closures w)]"
    and "counter (snd (snd (mount getter w))) = 0"
    and "counter (emit data (snd (snd (mount getter w)))) = counter (emit data (w\<lparr>counter := 0\<rparr>)) + 1"
    if wf: "list_all (\<lambda>l. l < length (closures w)) (listeners w)"
  proof -
    from wf have old: "\<forall>l \<in> set (listeners w). l < length (closures w)"
      by (simp add: list_all_iff)
    then have fresh: "length (closures w) \<notin> set (listeners w)" by auto
    then show "listeners (unmount (fst (snd (mount getter w))) (snd (snd (mount getter w)))) = listeners w"
      by (simp add: mount_eq unmount_def off_on_fresh)
    from fresh show "listeners (snd (snd (mount getter w))) = listeners w @ [length (closures w)]"
      by (simp add: mount_eq TypedEvent_on_def)
    from old have "call_listeners (closures w @ [handleEvent]) data c (listeners w)
        = call_listeners (closures w) data c (listeners w)" for c
      by (rule call_listeners_old)
    with fresh show "counter (emit data (snd (snd (mount getter w))))
        = counter (emit data (w\<lparr>counter := 0\<rparr>)) + 1"
      by (simp add: mount_eq emit_def TypedEvent_on_def call_listeners_def handleEvent_def)
    show "counter (snd (snd (mount getter w))) = 0"
      by (simp add: mount_eq)
  qed
  then show ?thesis
    by (simp add: makeObservableHook_def observe_eq emit_def handleEvent_def)
qed

theorem observe_returns_getter_witness:
  "list_all (\<lambda>l. l < length (closures demo_react)) (listeners demo_react) \<and>
   fst (makeObservableHook demo_getter (emit ''payload'' demo_react)) = ''state'' \<and>
   listeners (snd (snd (mount demo_getter demo_react))) = [0, 1] \<and>
   listeners (unmount (fst (snd (mount demo_getter demo_react))) (snd (snd (mount demo_getter demo_react))))
     = [0]"
proof -
  have h: "list_all (\<lambda>l. l < length (closures demo_react)) (listeners demo_react)"
    by (simp add: demo_react_def)
  have m: "listeners (snd (snd (mount demo_getter demo_react))) = [0, 1]"
    by (simp add: mount_eq TypedEvent_on_def demo_react_def)
  note t = observe_returns_getter [of demo_getter demo_react "''payload''" "[]" "[]" 0]
  from t h m show ?thesis
    by (simp add: demo_react_def demo_getter_def)
qed

end
